theory Spec2Isabelle
  imports
    Complex_Main
    "HOL-Library.Sublist"
    "HOL-Library.Char_ord"
    "HOL-Library.List_Lexorder"
    "HOL-Library.Multiset"
begin

section \<open>WebMarket API: the catalog, the query engine and the cart\<close>

text \<open>
  A shallow embedding of \<^verbatim>\<open>backend/main.py\<close>. Each request handler becomes a function of
  its parameters and of the store it reads: the catalog \<^verbatim>\<open>templates_db\<close> is passed as
  \<open>db\<close>, the cart \<^verbatim>\<open>cart_db\<close> as \<open>cart\<close>, and a handler that writes the cart returns the
  new cart beside its response. An \<^verbatim>\<open>HTTPException\<close> and a parameter rejected by a
  \<^verbatim>\<open>Query(...)\<close> constraint are values of type \<open>error\<close>.

  Conventions of the embedding:
  \<^item> Python \<^verbatim>\<open>int\<close> is \<open>int\<close>; Python \<^verbatim>\<open>float\<close> (price, rating) is \<open>rat\<close>, exact arithmetic:
    rounding, infinities and NaN are not modelled;
  \<^item> \<^verbatim>\<open>str\<close> is \<open>string\<close>, compared lexicographically by character code as Python does;
    \<^verbatim>\<open>str.lower\<close> is modelled on the ASCII letters only;
  \<^item> \<^verbatim>\<open>datetime.now().isoformat()\<close> is a parameter \<open>now\<close> of the handler that reads it;
  \<^item> \<^verbatim>\<open>list.sort\<close> is a stable sort, modelled by \<open>sort_key\<close> (the stable sort of a list
    is unique), and \<^verbatim>\<open>reverse=True\<close> sorts the reversed list and reverses the result, which
    is how CPython keeps the order of equal keys.
\<close>

subsection \<open>Data model\<close>

record template =
  tmpl_id :: int
  title :: string
  description :: string
  price :: rat
  category :: string
  author :: string
  image_url :: string
  downloads :: int
  rating :: rat
  created_at :: string
  tags :: "string list"

record cart_item =
  item_id :: int
  template_id :: int
  template :: template
  quantity :: int
  added_at :: string

datatype error = ValidationError | NotFound string

subsection \<open>The seed catalog\<close>

definition templates_db :: "template list" where
  "templates_db =
   [\<lparr>tmpl_id = 1, title = ''ModernShop Pro'',
     description = ''A fully responsive e-commerce template built with the latest technologies. Features include product filtering, shopping cart, payment integration, and a beautiful admin dashboard. Perfect for launching your online store quickly and professionally.'',
     price = 89, category = ''E-commerce'', author = ''TechStudio'',
     image_url = ''https://images.unsplash.com/photo-1555066931-4365d14bab8c?w=400'',
     downloads = 1250, rating = 48 / 10, created_at = ''2024-01-15T10:00:00Z'',
     tags = [''responsive'', ''ecommerce'', ''modern'', ''dashboard'']\<rparr>,
    \<lparr>tmpl_id = 2, title = ''Creative Portfolio'',
     description = ''Stunning portfolio template for creatives, designers, and artists. Showcases your work with beautiful galleries, smooth animations, and mobile-first design.'',
     price = 69, category = ''Portfolio'', author = ''DesignLab'',
     image_url = ''https://images.unsplash.com/photo-1517180102446-f3ece451e9d8?w=400'',
     downloads = 890, rating = 49 / 10, created_at = ''2024-01-10T14:30:00Z'',
     tags = [''portfolio'', ''creative'', ''gallery'', ''animation'']\<rparr>,
    \<lparr>tmpl_id = 3, title = ''Business Suite'',
     description = ''Complete business website solution with multiple page layouts, contact forms, team sections, and service pages. Perfect for consulting, agencies, and corporate websites.'',
     price = 129, category = ''Business'', author = ''ProDevs'',
     image_url = ''https://images.unsplash.com/photo-1504868584819-f8e8b4b6d7e3?w=400'',
     downloads = 567, rating = 47 / 10, created_at = ''2024-01-05T09:15:00Z'',
     tags = [''business'', ''corporate'', ''professional'', ''multi-page'']\<rparr>,
    \<lparr>tmpl_id = 4, title = ''Tech Startup Kit'',
     description = ''Modern startup landing page with hero sections, feature highlights, pricing tables, and testimonials. Built for SaaS companies and tech startups.'',
     price = 149, category = ''Landing Page'', author = ''CodeCraft'',
     image_url = ''https://images.unsplash.com/photo-1519389950473-47ba0277781c?w=400'',
     downloads = 723, rating = 46 / 10, created_at = ''2024-01-08T16:45:00Z'',
     tags = [''startup'', ''saas'', ''landing'', ''modern'']\<rparr>,
    \<lparr>tmpl_id = 5, title = ''Restaurant Pro'',
     description = ''Elegant restaurant website with menu displays, reservation system, gallery, and contact information. Perfect for restaurants, cafes, and food businesses.'',
     price = 79, category = ''Restaurant'', author = ''WebMasters'',
     image_url = ''https://images.unsplash.com/photo-1498050108023-c5249f4df085?w=400'',
     downloads = 445, rating = 45 / 10, created_at = ''2024-01-12T11:20:00Z'',
     tags = [''restaurant'', ''food'', ''menu'', ''elegant'']\<rparr>,
    \<lparr>tmpl_id = 6, title = ''Blog Master'',
     description = ''Clean and minimal blog template with article layouts, author pages, categories, and search functionality. Perfect for personal blogs and content creators.'',
     price = 49, category = ''Blog'', author = ''ContentPro'',
     image_url = ''https://images.unsplash.com/photo-1499750310107-5fef28a66643?w=400'',
     downloads = 892, rating = 44 / 10, created_at = ''2024-01-18T13:10:00Z'',
     tags = [''blog'', ''minimal'', ''content'', ''clean'']\<rparr>]"

subsection \<open>Strings, slices and sorting as Python has them\<close>

text \<open>\<^verbatim>\<open>str.lower\<close>, on ASCII: the letters \<open>A\<close> to \<open>Z\<close> (codes 65 to 90) move up by 32.\<close>

definition lower_char :: "char \<Rightarrow> char" where
  "lower_char c =
     (let n = (of_char c :: nat) in if 65 \<le> n \<and> n \<le> 90 then char_of (n + 32) else c)"

definition lower :: "string \<Rightarrow> string" where
  "lower s = map lower_char s"

text \<open>\<^verbatim>\<open>q in s\<close> for two strings: \<open>q\<close> occurs in \<open>s\<close> as a contiguous block.\<close>

fun str_in :: "string \<Rightarrow> string \<Rightarrow> bool" where
  "str_in q [] = (q = [])"
| "str_in q (c # cs) = (prefix q (c # cs) \<or> str_in q cs)"

text \<open>
  A slice bound as Python normalises it for a list of length \<open>n\<close>: a negative bound counts
  from the end, and every bound is clamped to \<open>0..n\<close>.
\<close>

definition slice_bound :: "nat \<Rightarrow> int \<Rightarrow> nat" where
  "slice_bound n i = (if i < 0 then nat (max 0 (int n + i)) else min (nat i) n)"

text \<open>\<^verbatim>\<open>xs[start:stop]\<close>.\<close>

definition py_slice :: "'a list \<Rightarrow> int \<Rightarrow> int \<Rightarrow> 'a list" where
  "py_slice xs start stop =
     (let a = slice_bound (length xs) start; b = slice_bound (length xs) stop
      in take (b - a) (drop a xs))"

text \<open>\<^verbatim>\<open>xs.sort(key=key, reverse=reverse)\<close>, returning the sorted list.\<close>

definition list_sort :: "('a \<Rightarrow> 'k::linorder) \<Rightarrow> bool \<Rightarrow> 'a list \<Rightarrow> 'a list" where
  "list_sort key reverse xs =
     (if reverse then rev (sort_key key (rev xs)) else sort_key key xs)"

text \<open>The truth value of an optional string: \<^verbatim>\<open>None\<close> and \<^verbatim>\<open>""\<close> are false.\<close>

fun truthy :: "string option \<Rightarrow> bool" where
  "truthy None = False"
| "truthy (Some s) = (s \<noteq> [])"

subsection \<open>Query engine: List\<close>

datatype sort_field = Downloads | Rating | Price | Created_at

text \<open>The constraint \<^verbatim>\<open>regex="^(downloads|rating|price|created_at)$"\<close> on \<^verbatim>\<open>sort_by\<close>.\<close>

definition parse_sort_by :: "string \<Rightarrow> sort_field option" where
  "parse_sort_by s =
     (if s = ''downloads'' then Some Downloads
      else if s = ''rating'' then Some Rating
      else if s = ''price'' then Some Price
      else if s = ''created_at'' then Some Created_at
      else None)"

text \<open>The constraint \<^verbatim>\<open>regex="^(asc|desc)$"\<close> on \<^verbatim>\<open>order\<close>.\<close>

definition valid_order :: "string \<Rightarrow> bool" where
  "valid_order s = (s = ''asc'' \<or> s = ''desc'')"

text \<open>
  The two \<^verbatim>\<open>sort\<close> calls of \<^verbatim>\<open>get_templates\<close>: the key is the field named by
  \<^verbatim>\<open>sort_by\<close>, an integer, a float or a string.
\<close>

fun sort_templates :: "sort_field \<Rightarrow> bool \<Rightarrow> template list \<Rightarrow> template list" where
  "sort_templates Created_at reverse ts = list_sort created_at reverse ts"
| "sort_templates Downloads reverse ts = list_sort downloads reverse ts"
| "sort_templates Rating reverse ts = list_sort rating reverse ts"
| "sort_templates Price reverse ts = list_sort price reverse ts"

text \<open>The category filter of \<^verbatim>\<open>get_templates\<close>, skipped when \<^verbatim>\<open>category\<close> is false.\<close>

definition filter_category :: "string option \<Rightarrow> template list \<Rightarrow> template list" where
  "filter_category cat ts =
     (case cat of
        None \<Rightarrow> ts
      | Some c \<Rightarrow> if c \<noteq> [] then filter (\<lambda>t. lower (category t) = lower c) ts else ts)"

record list_response =
  page_templates :: "template list"
  page_total :: int
  page_limit :: int
  page_offset :: int
  page_has_more :: bool

definition get_templates ::
  "template list \<Rightarrow> string option \<Rightarrow> int \<Rightarrow> int \<Rightarrow> string \<Rightarrow> string \<Rightarrow> error + list_response"
where
  "get_templates db cat limit offset sort_by order =
     (if \<not> (1 \<le> limit \<and> limit \<le> 100) then Inl ValidationError
      else if \<not> 0 \<le> offset then Inl ValidationError
      else if \<not> valid_order order then Inl ValidationError
      else case parse_sort_by sort_by of
        None \<Rightarrow> Inl ValidationError
      | Some field \<Rightarrow>
          (let filtered_templates = filter_category cat db;
               reverse = (order = ''desc'');
               sorted_templates = sort_templates field reverse filtered_templates;
               total = int (length sorted_templates);
               paginated_templates = py_slice sorted_templates offset (offset + limit)
           in Inr \<lparr>page_templates = paginated_templates, page_total = total,
                    page_limit = limit, page_offset = offset,
                    page_has_more = (offset + limit < total)\<rparr>))"

subsection \<open>Query engine: By Category\<close>

record category_response =
  bc_category :: string
  bc_templates :: "template list"
  bc_total :: int

definition get_templates_by_category ::
  "template list \<Rightarrow> string \<Rightarrow> int \<Rightarrow> category_response"
where
  "get_templates_by_category db cat limit =
     (let filtered_templates = filter (\<lambda>t. lower (category t) = lower cat) db
      in \<lparr>bc_category = cat,
          bc_templates = py_slice filtered_templates 0 limit,
          bc_total = int (length filtered_templates)\<rparr>)"

subsection \<open>Query engine: Search\<close>

record search_response =
  sr_query :: string
  sr_category :: "string option"
  sr_results :: "template list"
  sr_total :: int

text \<open>The test that opens the loop body: the lowered query occurs in the title, the
  description or one of the tags.\<close>

definition matches_query :: "string \<Rightarrow> template \<Rightarrow> bool" where
  "matches_query query_lower t =
     (str_in query_lower (lower (title t)) \<or>
      str_in query_lower (lower (description t)) \<or>
      list_ex (\<lambda>tag. str_in query_lower (lower tag)) (tags t))"

text \<open>The four \<^verbatim>\<open>continue\<close> tests, in the order of the source: true when the template is
  skipped.\<close>

definition skipped ::
  "string option \<Rightarrow> rat option \<Rightarrow> rat option \<Rightarrow> rat option \<Rightarrow> template \<Rightarrow> bool"
where
  "skipped cat min_price max_price min_rating t =
     (if truthy cat \<and> lower (category t) \<noteq> lower (the cat) then True
      else if min_price \<noteq> None \<and> price t < the min_price then True
      else if max_price \<noteq> None \<and> price t > the max_price then True
      else if min_rating \<noteq> None \<and> rating t < the min_rating then True
      else False)"

text \<open>The loop over \<^verbatim>\<open>templates_db\<close>, with \<^verbatim>\<open>results\<close> as the accumulator.\<close>

fun search_loop ::
  "string \<Rightarrow> string option \<Rightarrow> rat option \<Rightarrow> rat option \<Rightarrow> rat option \<Rightarrow>
   template list \<Rightarrow> template list \<Rightarrow> template list"
where
  "search_loop query_lower cat mn mx mr [] results = results"
| "search_loop query_lower cat mn mx mr (t # ts) results =
     (if matches_query query_lower t then
        (if skipped cat mn mx mr t then search_loop query_lower cat mn mx mr ts results
         else search_loop query_lower cat mn mx mr ts (results @ [t]))
      else search_loop query_lower cat mn mx mr ts results)"

text \<open>The constraints of the signature: \<^verbatim>\<open>min_length=1\<close> on \<^verbatim>\<open>q\<close>, \<^verbatim>\<open>ge=0\<close> on both
  prices, \<^verbatim>\<open>ge=0, le=5\<close> on the rating; an absent optional parameter passes.\<close>

definition valid_search :: "string \<Rightarrow> rat option \<Rightarrow> rat option \<Rightarrow> rat option \<Rightarrow> bool" where
  "valid_search q min_price max_price min_rating =
     (1 \<le> length q \<and>
      (case min_price of None \<Rightarrow> True | Some p \<Rightarrow> 0 \<le> p) \<and>
      (case max_price of None \<Rightarrow> True | Some p \<Rightarrow> 0 \<le> p) \<and>
      (case min_rating of None \<Rightarrow> True | Some r \<Rightarrow> 0 \<le> r \<and> r \<le> 5))"

definition search_templates ::
  "template list \<Rightarrow> string \<Rightarrow> string option \<Rightarrow> rat option \<Rightarrow> rat option \<Rightarrow> rat option \<Rightarrow>
   error + search_response"
where
  "search_templates db q cat min_price max_price min_rating =
     (if \<not> valid_search q min_price max_price min_rating then Inl ValidationError
      else
        (let results = search_loop (lower q) cat min_price max_price min_rating db []
         in Inr \<lparr>sr_query = q, sr_category = cat, sr_results = results,
                  sr_total = int (length results)\<rparr>))"

subsection \<open>Cart\<close>

record cart_view =
  items :: "cart_item list"
  total_items :: int
  total_price :: rat

record cart_response =
  message :: string
  item :: cart_item

text \<open>\<^verbatim>\<open>sum(...)\<close> adds from the left, starting at 0.\<close>

definition get_cart :: "cart_item list \<Rightarrow> cart_view" where
  "get_cart cart =
     \<lparr>items = cart,
      total_items = int (length cart),
      total_price =
        foldl (\<lambda>acc i. acc + price (template i) * of_int (quantity i)) 0 cart\<rparr>"

text \<open>An assignment to a field of the first element that satisfies \<open>P\<close>: the list keeps its
  length and its other elements.\<close>

fun update_first :: "('a \<Rightarrow> bool) \<Rightarrow> ('a \<Rightarrow> 'a) \<Rightarrow> 'a list \<Rightarrow> 'a list" where
  "update_first P f [] = []"
| "update_first P f (x # xs) = (if P x then f x # xs else x # update_first P f xs)"

definition add_to_cart ::
  "template list \<Rightarrow> string \<Rightarrow> cart_item list \<Rightarrow> int \<Rightarrow>
   cart_item list \<times> (error + cart_response)"
where
  "add_to_cart db now cart tid =
     (case find (\<lambda>t. tmpl_id t = tid) db of
        None \<Rightarrow> (cart, Inl (NotFound ''Template not found''))
      | Some tmpl \<Rightarrow>
          (case find (\<lambda>i. template_id i = tid) cart of
             Some existing_item \<Rightarrow>
               (update_first (\<lambda>i. template_id i = tid)
                  (\<lambda>i. i\<lparr>quantity := quantity i + 1\<rparr>) cart,
                Inr \<lparr>message = ''Quantity updated'',
                     item = existing_item\<lparr>quantity := quantity existing_item + 1\<rparr>\<rparr>)
           | None \<Rightarrow>
               (let new_item = \<lparr>item_id = int (length cart) + 1, template_id = tid,
                                template = tmpl, quantity = 1, added_at = now\<rparr>
                in (cart @ [new_item],
                    Inr \<lparr>message = ''Template added to cart'', item = new_item\<rparr>))))"

definition update_cart_item ::
  "cart_item list \<Rightarrow> int \<Rightarrow> int \<Rightarrow> cart_item list \<times> (error + cart_response)"
where
  "update_cart_item cart iid qty =
     (if \<not> (1 \<le> qty \<and> qty \<le> 10) then (cart, Inl ValidationError)
      else case find (\<lambda>i. item_id i = iid) cart of
        None \<Rightarrow> (cart, Inl (NotFound ''Cart item not found''))
      | Some it \<Rightarrow>
          (update_first (\<lambda>i. item_id i = iid) (\<lambda>i. i\<lparr>quantity := qty\<rparr>) cart,
           Inr \<lparr>message = ''Cart item updated'', item = it\<lparr>quantity := qty\<rparr>\<rparr>))"

text \<open>\<^verbatim>\<open>cart_db\<close> is rebound to the filtered list before the lengths are compared, so the
  new cart is the filtered list on both paths.\<close>

definition remove_from_cart ::
  "cart_item list \<Rightarrow> int \<Rightarrow> cart_item list \<times> (error + string)"
where
  "remove_from_cart cart iid =
     (let original_length = length cart;
          cart' = filter (\<lambda>i. item_id i \<noteq> iid) cart
      in if length cart' = original_length
         then (cart', Inl (NotFound ''Cart item not found''))
         else (cart', Inr ''Item removed from cart''))"

definition clear_cart :: "cart_item list \<Rightarrow> cart_item list \<times> string" where
  "clear_cart cart = ([], ''Cart cleared'')"

subsection \<open>Sequences of cart requests\<close>

text \<open>One request to a cart handler, with its parameters; \<open>Add\<close> carries the clock reading
  of the request.\<close>

datatype cart_op = Add int string | Update int int | Remove int | Clear

fun apply_op :: "template list \<Rightarrow> cart_item list \<Rightarrow> cart_op \<Rightarrow> cart_item list" where
  "apply_op db cart (Add tid now) = fst (add_to_cart db now cart tid)"
| "apply_op db cart (Update iid qty) = fst (update_cart_item cart iid qty)"
| "apply_op db cart (Remove iid) = fst (remove_from_cart cart iid)"
| "apply_op db cart Clear = fst (clear_cart cart)"

text \<open>The cart after the requests \<open>ops\<close>, served one after the other.\<close>

definition run_ops :: "template list \<Rightarrow> cart_item list \<Rightarrow> cart_op list \<Rightarrow> cart_item list" where
  "run_ops db cart ops = foldl (apply_op db) cart ops"

fun is_add_or_remove :: "cart_op \<Rightarrow> bool" where
  "is_add_or_remove (Add tid now) = True"
| "is_add_or_remove (Remove iid) = True"
| "is_add_or_remove (Update iid qty) = False"
| "is_add_or_remove Clear = False"

subsection \<open>The orders of the specification\<close>

text \<open>What the specification calls monotonic in a sort field: \<open>field_le f a b\<close> says that
  the value of field \<open>f\<close> in \<open>a\<close> is at most the one in \<open>b\<close> (numbers by value, the
  timestamp as a string), and \<open>same_key f a b\<close> that the two values are equal, a tie.\<close>

definition field_le :: "sort_field \<Rightarrow> template \<Rightarrow> template \<Rightarrow> bool" where
  "field_le f =
     (case f of
        Downloads \<Rightarrow> (\<lambda>a b. downloads a \<le> downloads b)
      | Rating \<Rightarrow> (\<lambda>a b. rating a \<le> rating b)
      | Price \<Rightarrow> (\<lambda>a b. price a \<le> price b)
      | Created_at \<Rightarrow> (\<lambda>a b. created_at a \<le> created_at b))"

definition same_key :: "sort_field \<Rightarrow> template \<Rightarrow> template \<Rightarrow> bool" where
  "same_key f a =
     (case f of
        Downloads \<Rightarrow> (\<lambda>b. downloads b = downloads a)
      | Rating \<Rightarrow> (\<lambda>b. rating b = rating a)
      | Price \<Rightarrow> (\<lambda>b. price b = price a)
      | Created_at \<Rightarrow> (\<lambda>b. created_at b = created_at a))"

subsection \<open>The invariant of the cart\<close>

text \<open>What every cart reached by requests satisfies: no two items for one template, and
  every item's template is in the catalog.\<close>

definition cart_inv :: "template list \<Rightarrow> cart_item list \<Rightarrow> bool" where
  "cart_inv db cart \<longleftrightarrow>
     distinct (map template_id cart) \<and>
     (\<forall>tid\<in>set (map template_id cart). find (\<lambda>t. tmpl_id t = tid) db \<noteq> None)"

section \<open>Properties\<close>

subsection \<open>Auxiliary facts\<close>

lemma length_filter_eq_iff: "length (filter P xs) = length xs \<longleftrightarrow> (\<forall>x\<in>set xs. P x)"
  by (metis filter_id_conv length_filter_less less_irrefl_nat)

lemma str_in_iff_sublist: "str_in q s \<longleftrightarrow> sublist q s"
  by (induction s) (simp_all add: sublist_Cons_right)

lemma search_loop_filter:
  "search_loop ql cat mn mx mr ts results =
     results @ filter (\<lambda>t. matches_query ql t \<and> \<not> skipped cat mn mx mr t) ts"
  by (induction ts arbitrary: results) simp_all

lemma py_slice_nonneg:
  assumes "0 \<le> a" "0 \<le> l"
  shows "py_slice xs a (a + l) = take (nat l) (drop (nat a) xs)"
proof (cases "nat a \<le> length xs")
  case True
  then show ?thesis using assms
    by (auto simp: py_slice_def slice_bound_def Let_def min_def nat_add_distrib)
next
  case False
  then show ?thesis using assms
    by (auto simp: py_slice_def slice_bound_def Let_def min_def nat_add_distrib)
qed

lemma py_slice_take:
  assumes "0 \<le> l \<or> length xs \<le> 1"
  shows "py_slice xs 0 l = take (nat l) xs"
  using assms by (auto simp: py_slice_def slice_bound_def Let_def min_def)

lemma py_slice_negative:
  assumes "l < 0"
  shows "py_slice xs 0 l = take (length xs - nat (- l)) xs"
proof -
  have "nat (max 0 (int (length xs) + l)) = length xs - nat (- l)"
    using assms by (simp add: max_def) linarith
  with assms show ?thesis
    by (simp add: py_slice_def slice_bound_def Let_def)
qed

subsection \<open>Cart: Remove\<close>

text \<open>
  Claim C8. For every cart and every item id, Remove fails with NotFound exactly when no
  CartItem of the cart has that id, and then the cart keeps its contents; when some item
  has the id, Remove succeeds and the cart is left with the items of another id, so no
  item with that id remains.
\<close>

theorem remove_from_cart_not_found_iff:
  "(snd (remove_from_cart cart iid) = Inl (NotFound ''Cart item not found'')
      \<longleftrightarrow> iid \<notin> item_id ` set cart) \<and>
   (iid \<notin> item_id ` set cart \<longrightarrow> fst (remove_from_cart cart iid) = cart) \<and>
   (iid \<in> item_id ` set cart \<longrightarrow>
      remove_from_cart cart iid =
        (filter (\<lambda>i. item_id i \<noteq> iid) cart, Inr ''Item removed from cart'') \<and>
      iid \<notin> item_id ` set (fst (remove_from_cart cart iid)))"
proof -
  have eq: "length (filter (\<lambda>i. item_id i \<noteq> iid) cart) = length cart
              \<longleftrightarrow> iid \<notin> item_id ` set cart"
    by (auto simp: length_filter_eq_iff)
  show ?thesis
  proof (cases "iid \<in> item_id ` set cart")
    case True
    with eq show ?thesis by (auto simp: remove_from_cart_def Let_def)
  next
    case False
    with eq have "filter (\<lambda>i. item_id i \<noteq> iid) cart = cart"
      by (auto simp: filter_id_conv)
    with False show ?thesis by (simp add: remove_from_cart_def Let_def)
  qed
qed

text \<open>The cart holding template 1 once: removing id 9999 fails and changes nothing,
  removing id 1 succeeds and empties the cart.\<close>

theorem remove_from_cart_not_found_iff_witness:
  "remove_from_cart (run_ops templates_db [] [Add 1 ''t0'']) 9999 =
     (run_ops templates_db [] [Add 1 ''t0''], Inl (NotFound ''Cart item not found'')) \<and>
   remove_from_cart (run_ops templates_db [] [Add 1 ''t0'']) 1 =
     ([], Inr ''Item removed from cart'')"
proof -
  have ids: "item_id ` set (run_ops templates_db [] [Add 1 ''t0'']) = {1}"
    by code_simp
  have none: "filter (\<lambda>i. item_id i \<noteq> 1) (run_ops templates_db [] [Add 1 ''t0'']) = []"
    by code_simp
  from remove_from_cart_not_found_iff [of "run_ops templates_db [] [Add 1 ''t0'']" 9999] ids
  have a: "remove_from_cart (run_ops templates_db [] [Add 1 ''t0'']) 9999 =
     (run_ops templates_db [] [Add 1 ''t0''], Inl (NotFound ''Cart item not found''))"
    by (simp add: prod_eq_iff)
  from remove_from_cart_not_found_iff [of "run_ops templates_db [] [Add 1 ''t0'']" 1] ids none
  have b: "remove_from_cart (run_ops templates_db [] [Add 1 ''t0'']) 1 =
     ([], Inr ''Item removed from cart'')"
    by simp
  from a b show ?thesis by simp
qed

subsection \<open>Sorting\<close>

lemma list_sort_length: "length (list_sort key r xs) = length xs"
  by (simp add: list_sort_def)

lemma list_sort_mset: "mset (list_sort key r xs) = mset xs"
  by (simp add: list_sort_def)

lemma list_sort_asc: "sorted_wrt (\<lambda>a b. key a \<le> key b) (list_sort key False xs)"
  using sorted_sort_key [of key xs] by (simp add: list_sort_def sorted_map)

lemma list_sort_desc: "sorted_wrt (\<lambda>a b. key b \<le> key a) (list_sort key True xs)"
  using sorted_sort_key [of key "rev xs"] by (simp add: list_sort_def sorted_map sorted_wrt_rev)

lemma list_sort_stable:
  "filter (\<lambda>y. key y = k) (list_sort key r xs) = filter (\<lambda>y. key y = k) xs"
  by (simp add: list_sort_def sort_key_stable rev_filter [symmetric])

lemma sort_templates_length: "length (sort_templates f r ts) = length ts"
  by (cases f) (simp_all add: list_sort_length)

lemma sort_templates_mset: "mset (sort_templates f r ts) = mset ts"
  by (cases f) (simp_all add: list_sort_mset)

lemma sort_templates_asc: "sorted_wrt (field_le f) (sort_templates f False ts)"
  by (cases f) (simp_all add: field_le_def list_sort_asc)

lemma sort_templates_desc: "sorted_wrt (\<lambda>a b. field_le f b a) (sort_templates f True ts)"
  by (cases f) (simp_all add: field_le_def list_sort_desc)

lemma sort_templates_stable:
  "filter (same_key f t) (sort_templates f r ts) = filter (same_key f t) ts"
  by (cases f) (simp_all add: same_key_def list_sort_stable)

lemma subseq_filter_category: "subseq (filter_category cat db) db"
  by (simp add: filter_category_def split: option.splits)

lemma subseq_take_drop: "subseq (take n (drop m xs)) xs"
  by (meson sublist_drop sublist_imp_subseq sublist_order.order_trans sublist_take)

subsection \<open>Query engine: List\<close>

lemma filter_category_explicit:
  "filter_category cat db =
     filter (\<lambda>t. case cat of None \<Rightarrow> True
                  | Some c \<Rightarrow> c = [] \<or> lower (category t) = lower c) db"
  by (simp add: filter_category_def split: option.splits)

text \<open>
  Claim C1. For every catalog and category, every limit from 1 to 100, every offset
  that is not negative, every sort field and order the handler accepts, List answers with a
  page whose length is \<open>min limit (max 0 (total - offset))\<close> and whose \<open>has_more\<close> is
  \<open>offset + limit < total\<close>. Here \<open>total\<close> is the number of templates of the catalog
  whose category equals the given one up to case (all of them when the category is absent
  or empty), counted before the page is cut; every template of the page is one of these,
  and the answer repeats the limit and the offset of the request.
\<close>

theorem get_templates_page_size:
  assumes "1 \<le> limit" "limit \<le> 100" "0 \<le> offset"
    and "sort_by \<in> {''downloads'', ''rating'', ''price'', ''created_at''}"
    and "order \<in> {''asc'', ''desc''}"
  shows "\<exists>r. get_templates db cat limit offset sort_by order = Inr r \<and>
           page_total r =
             int (length (filter (\<lambda>t. case cat of None \<Rightarrow> True
                  | Some c \<Rightarrow> c = [] \<or> lower (category t) = lower c) db)) \<and>
           int (length (page_templates r)) = min limit (max 0 (page_total r - offset)) \<and>
           page_has_more r = (offset + limit < page_total r) \<and>
           set (page_templates r) \<subseteq>
             set (filter (\<lambda>t. case cat of None \<Rightarrow> True
                  | Some c \<Rightarrow> c = [] \<or> lower (category t) = lower c) db) \<and>
           page_limit r = limit \<and> page_offset r = offset"
proof -
  let ?flt = "filter (\<lambda>t. case cat of None \<Rightarrow> True
                  | Some c \<Rightarrow> c = [] \<or> lower (category t) = lower c) db"
  from assms(4) obtain f where f: "parse_sort_by sort_by = Some f"
    by (auto simp: parse_sort_by_def)
  from assms(5) have ord: "valid_order order"
    by (auto simp: valid_order_def)
  define srt where "srt = sort_templates f (order = ''desc'') (filter_category cat db)"
  have len: "length srt = length ?flt"
    by (simp only: srt_def sort_templates_length filter_category_explicit)
  have "mset srt = mset ?flt"
    by (simp only: srt_def sort_templates_mset filter_category_explicit)
  then have elems: "set srt = set ?flt"
    by (rule mset_eq_setD)
  have page: "py_slice srt offset (offset + limit) = take (nat limit) (drop (nat offset) srt)"
    using assms(1,3) by (intro py_slice_nonneg) simp_all
  have res: "get_templates db cat limit offset sort_by order =
      Inr \<lparr>page_templates = take (nat limit) (drop (nat offset) srt),
           page_total = int (length srt), page_limit = limit, page_offset = offset,
           page_has_more = (offset + limit < int (length srt))\<rparr>"
    using assms(1-3) f ord page by (simp add: get_templates_def Let_def srt_def)
  have size: "int (length (take (nat limit) (drop (nat offset) srt))) =
      min limit (max 0 (int (length srt) - offset))"
    using assms(1,3) by (simp add: min_def max_def) linarith
  have sub: "set (take (nat limit) (drop (nat offset) srt)) \<subseteq> set ?flt"
    using elems set_take_subset [of "nat limit" "drop (nat offset) srt"]
      set_drop_subset [of "nat offset" srt] by blast
  show ?thesis
    unfolding res using size sub len by simp
qed

text \<open>The seed catalog, ten per page: the category \<open>BLOG\<close> has one template, Blog
  Master, so total 1 and nothing more to fetch; without a category, four per page from
  offset 4 gives the last two of six templates.\<close>

theorem get_templates_page_size_witness:
  "(\<exists>r. get_templates templates_db (Some ''BLOG'') 10 0 ''downloads'' ''desc'' = Inr r \<and>
      page_total r = 1 \<and> map title (page_templates r) = [''Blog Master''] \<and>
      page_has_more r = False) \<and>
   (\<exists>r. get_templates templates_db None 4 4 ''price'' ''asc'' = Inr r \<and>
      page_total r = 6 \<and> length (page_templates r) = 2 \<and> page_has_more r = False)"
proof -
  have blog: "filter (\<lambda>t. case Some ''BLOG'' of None \<Rightarrow> True
      | Some c \<Rightarrow> c = [] \<or> lower (category t) = lower c) templates_db = [templates_db ! 5]"
    by code_simp
  have name: "title (templates_db ! 5) = ''Blog Master''"
    by code_simp
  have six: "length (filter (\<lambda>t. case None :: string option of None \<Rightarrow> True
      | Some c \<Rightarrow> c = [] \<or> lower (category t) = lower c) templates_db) = 6"
    by code_simp
  from get_templates_page_size
    [of 10 0 "''downloads''" "''desc''" templates_db "Some ''BLOG''"]
  obtain r where r: "get_templates templates_db (Some ''BLOG'') 10 0 ''downloads'' ''desc'' = Inr r"
    and t: "page_total r = 1" and l: "int (length (page_templates r)) = 1"
    and h: "page_has_more r = False"
    and s: "set (page_templates r) \<subseteq> {templates_db ! 5}"
    unfolding blog by auto
  from l s have "page_templates r = [templates_db ! 5]"
    by (cases "page_templates r") auto
  with r t h name have a: "\<exists>r. get_templates templates_db (Some ''BLOG'') 10 0
      ''downloads'' ''desc'' = Inr r \<and>
      page_total r = 1 \<and> map title (page_templates r) = [''Blog Master''] \<and>
      page_has_more r = False"
    by simp
  from get_templates_page_size [of 4 4 "''price''" "''asc''" templates_db None] six
  have b: "\<exists>r. get_templates templates_db None 4 4 ''price'' ''asc'' = Inr r \<and>
      page_total r = 6 \<and> length (page_templates r) = 2 \<and> page_has_more r = False"
    by auto
  from a b show ?thesis by (rule conjI)
qed

text \<open>
  Claim C2, as amended. For every catalog, category, valid limit and offset, every sort
  field and both orders, the page List returns is a slice of a list \<open>full\<close> that holds the
  category-filtered templates, is non-decreasing in the field when the order is
  \<open>asc\<close> and non-increasing when it is \<open>desc\<close>, and keeps the templates of equal field
  value in their catalog order; so the page itself is monotonic, and its ties stand in
  catalog order. On the six seed templates, price ascending gives Blog Master (49),
  Creative Portfolio (69), Restaurant Pro (79), ModernShop Pro (89), Business Suite (129),
  Tech Startup Kit (149).
\<close>

theorem get_templates_sorted_stable:
  assumes "1 \<le> limit" "limit \<le> 100" "0 \<le> offset"
    and "parse_sort_by sort_by = Some f"
    and "order \<in> {''asc'', ''desc''}"
  shows "(\<exists>r full. get_templates db cat limit offset sort_by order = Inr r \<and>
           page_templates r = take (nat limit) (drop (nat offset) full) \<and>
           mset full = mset (filter_category cat db) \<and>
           sorted_wrt (if order = ''asc'' then field_le f else (\<lambda>a b. field_le f b a)) full \<and>
           (\<forall>t. filter (same_key f t) full = filter (same_key f t) (filter_category cat db)) \<and>
           sorted_wrt (if order = ''asc'' then field_le f else (\<lambda>a b. field_le f b a))
             (page_templates r) \<and>
           (\<forall>t. subseq (filter (same_key f t) (page_templates r)) (filter (same_key f t) db))) \<and>
         (\<exists>r. get_templates templates_db None 10 0 ''price'' ''asc'' = Inr r \<and>
           map (\<lambda>t. (title t, price t)) (page_templates r) =
             [(''Blog Master'', 49), (''Creative Portfolio'', 69), (''Restaurant Pro'', 79),
              (''ModernShop Pro'', 89), (''Business Suite'', 129), (''Tech Startup Kit'', 149)])"
proof
  from assms(5) have ord: "valid_order order"
    by (auto simp: valid_order_def)
  let ?R = "if order = ''asc'' then field_le f else (\<lambda>a b. field_le f b a)"
  define full where "full = sort_templates f (order = ''desc'') (filter_category cat db)"
  define page where "page = take (nat limit) (drop (nat offset) full)"
  have slice: "py_slice full offset (offset + limit) = page"
    unfolding page_def using assms(1,3) by (intro py_slice_nonneg) simp_all
  have res: "get_templates db cat limit offset sort_by order =
      Inr \<lparr>page_templates = page,
           page_total = int (length full), page_limit = limit, page_offset = offset,
           page_has_more = (offset + limit < int (length full))\<rparr>"
    using assms(1-4) ord slice by (simp add: get_templates_def Let_def full_def)
  have perm: "mset full = mset (filter_category cat db)"
    by (simp add: full_def sort_templates_mset)
  have mono: "sorted_wrt ?R full"
    using assms(5) sort_templates_asc [of f] sort_templates_desc [of f]
    by (auto simp: full_def)
  have stable: "filter (same_key f t) full = filter (same_key f t) (filter_category cat db)"
    for t by (simp add: full_def sort_templates_stable)
  have mono_page: "sorted_wrt ?R page"
    unfolding page_def using mono by (intro sorted_wrt_take sorted_wrt_drop)
  have ties: "subseq (filter (same_key f t) page) (filter (same_key f t) db)" for t
  proof -
    have "subseq (filter (same_key f t) page) (filter (same_key f t) full)"
      unfolding page_def by (intro subseq_filter subseq_take_drop)
    also have "filter (same_key f t) full = filter (same_key f t) (filter_category cat db)"
      by (rule stable)
    also have "subseq \<dots> (filter (same_key f t) db)"
      by (intro subseq_filter subseq_filter_category)
    finally show ?thesis .
  qed
  show "\<exists>r full. get_templates db cat limit offset sort_by order = Inr r \<and>
           page_templates r = take (nat limit) (drop (nat offset) full) \<and>
           mset full = mset (filter_category cat db) \<and>
           sorted_wrt ?R full \<and>
           (\<forall>t. filter (same_key f t) full = filter (same_key f t) (filter_category cat db)) \<and>
           sorted_wrt ?R (page_templates r) \<and>
           (\<forall>t. subseq (filter (same_key f t) (page_templates r)) (filter (same_key f t) db))"
    using res perm mono stable mono_page ties page_def
    by (intro exI [of _ "\<lparr>page_templates = page,
           page_total = int (length full), page_limit = limit, page_offset = offset,
           page_has_more = (offset + limit < int (length full))\<rparr>"] exI [of _ full]) simp
next
  have "map (\<lambda>t. (title t, price t))
          (page_templates (projr (get_templates templates_db None 10 0 ''price'' ''asc''))) =
        [(''Blog Master'', 49), (''Creative Portfolio'', 69), (''Restaurant Pro'', 79),
         (''ModernShop Pro'', 89), (''Business Suite'', 129), (''Tech Startup Kit'', 149)]"
    by code_simp
  moreover have "\<not> isl (get_templates templates_db None 10 0 ''price'' ''asc'')"
    by code_simp
  ultimately show "\<exists>r. get_templates templates_db None 10 0 ''price'' ''asc'' = Inr r \<and>
           map (\<lambda>t. (title t, price t)) (page_templates r) =
             [(''Blog Master'', 49), (''Creative Portfolio'', 69), (''Restaurant Pro'', 79),
              (''ModernShop Pro'', 89), (''Business Suite'', 129), (''Tech Startup Kit'', 149)]"
    by (cases "get_templates templates_db None 10 0 ''price'' ''asc''") auto
qed

text \<open>The seed catalog by rating, descending: the order of the answer, which the theorem
  says is non-increasing in the rating.\<close>

theorem get_templates_sorted_stable_witness:
  "\<exists>r. get_templates templates_db None 10 0 ''rating'' ''desc'' = Inr r \<and>
     sorted_wrt (\<lambda>a b. field_le Rating b a) (page_templates r) \<and>
     map title (page_templates r) =
       [''Creative Portfolio'', ''ModernShop Pro'', ''Business Suite'', ''Tech Startup Kit'',
        ''Restaurant Pro'', ''Blog Master'']"
proof -
  have f: "parse_sort_by ''rating'' = Some Rating"
    by (simp add: parse_sort_by_def)
  have titles: "map title
      (page_templates (projr (get_templates templates_db None 10 0 ''rating'' ''desc''))) =
       [''Creative Portfolio'', ''ModernShop Pro'', ''Business Suite'', ''Tech Startup Kit'',
        ''Restaurant Pro'', ''Blog Master'']"
    by code_simp
  from get_templates_sorted_stable [of 10 0 "''rating''" Rating "''desc''" templates_db None] f
  obtain r where r: "get_templates templates_db None 10 0 ''rating'' ''desc'' = Inr r"
    and s: "sorted_wrt (\<lambda>a b. field_le Rating b a) (page_templates r)"
    by auto
  from r s titles show ?thesis by auto
qed

text \<open>
  The order the specification prints for price ascending, Blog Master (49), Restaurant
  Pro (79), Creative Portfolio (69), is not the order of the answer: Creative Portfolio
  comes second.
\<close>

theorem seed_price_ascending_counterexample:
  "\<not> isl (get_templates templates_db None 10 0 ''price'' ''asc'') \<and>
   \<not> prefix [''Blog Master'', ''Restaurant Pro'', ''Creative Portfolio'']
       (map title (page_templates (projr (get_templates templates_db None 10 0 ''price'' ''asc''))))"
  by code_simp

subsection \<open>Query engine: Search\<close>

lemma matches_query_sublist:
  "matches_query ql t \<longleftrightarrow>
     sublist ql (lower (title t)) \<or> sublist ql (lower (description t)) \<or>
     (\<exists>tag \<in> set (tags t). sublist ql (lower tag))"
  by (simp add: matches_query_def str_in_iff_sublist list_ex_iff)

lemma not_skipped_iff:
  "\<not> skipped cat mn mx mr t \<longleftrightarrow>
     (case cat of None \<Rightarrow> True | Some c \<Rightarrow> c = [] \<or> lower (category t) = lower c) \<and>
     (case mn of None \<Rightarrow> True | Some p \<Rightarrow> p \<le> price t) \<and>
     (case mx of None \<Rightarrow> True | Some p \<Rightarrow> price t \<le> p) \<and>
     (case mr of None \<Rightarrow> True | Some r \<Rightarrow> r \<le> rating t)"
  by (auto simp: skipped_def split: option.splits)

text \<open>
  Claim C3. For every catalog and every non-empty query \<open>q\<close>, with price bounds that are
  not negative and a rating bound from 0 to 5 where they are given, Search returns
  exactly the templates in which the lowered \<open>q\<close> is a contiguous part of the lowered
  title, of the lowered description or of some lowered tag, and which pass every filter
  that is given: the category equal up to case (an absent or empty category filters
  nothing), the price at least \<open>min_price\<close>, at most \<open>max_price\<close>, the rating at least
  \<open>min_rating\<close>. The results stand in catalog order, none is cut off, and \<open>total\<close> is
  their number. For \<open>q = modern\<close> on the seed catalog the results are ModernShop Pro and
  Tech Startup Kit and no other.
\<close>

theorem search_templates_exact:
  assumes "q \<noteq> []"
    and "case min_price of None \<Rightarrow> True | Some p \<Rightarrow> 0 \<le> p"
    and "case max_price of None \<Rightarrow> True | Some p \<Rightarrow> 0 \<le> p"
    and "case min_rating of None \<Rightarrow> True | Some r \<Rightarrow> 0 \<le> r \<and> r \<le> 5"
  shows "(\<exists>r. search_templates db q cat min_price max_price min_rating = Inr r \<and>
            sr_results r =
              filter (\<lambda>t.
                (sublist (lower q) (lower (title t)) \<or>
                 sublist (lower q) (lower (description t)) \<or>
                 (\<exists>tag \<in> set (tags t). sublist (lower q) (lower tag))) \<and>
                (case cat of None \<Rightarrow> True | Some c \<Rightarrow> c = [] \<or> lower (category t) = lower c) \<and>
                (case min_price of None \<Rightarrow> True | Some p \<Rightarrow> p \<le> price t) \<and>
                (case max_price of None \<Rightarrow> True | Some p \<Rightarrow> price t \<le> p) \<and>
                (case min_rating of None \<Rightarrow> True | Some r \<Rightarrow> r \<le> rating t)) db \<and>
            sr_total r = int (length (sr_results r)) \<and>
            sr_query r = q \<and> sr_category r = cat) \<and>
         (\<exists>r. search_templates templates_db ''modern'' None None None None = Inr r \<and>
            map title (sr_results r) = [''ModernShop Pro'', ''Tech Startup Kit''] \<and>
            sr_total r = 2)"
proof
  from assms have valid: "valid_search q min_price max_price min_rating"
    by (cases q) (simp_all add: valid_search_def)
  show "\<exists>r. search_templates db q cat min_price max_price min_rating = Inr r \<and>
            sr_results r =
              filter (\<lambda>t.
                (sublist (lower q) (lower (title t)) \<or>
                 sublist (lower q) (lower (description t)) \<or>
                 (\<exists>tag \<in> set (tags t). sublist (lower q) (lower tag))) \<and>
                (case cat of None \<Rightarrow> True | Some c \<Rightarrow> c = [] \<or> lower (category t) = lower c) \<and>
                (case min_price of None \<Rightarrow> True | Some p \<Rightarrow> p \<le> price t) \<and>
                (case max_price of None \<Rightarrow> True | Some p \<Rightarrow> price t \<le> p) \<and>
                (case min_rating of None \<Rightarrow> True | Some r \<Rightarrow> r \<le> rating t)) db \<and>
            sr_total r = int (length (sr_results r)) \<and>
            sr_query r = q \<and> sr_category r = cat"
    using valid
    by (simp add: search_templates_def Let_def search_loop_filter
        matches_query_sublist not_skipped_iff)
next
  have "map title (sr_results (projr (search_templates templates_db ''modern'' None None None None)))
          = [''ModernShop Pro'', ''Tech Startup Kit'']"
    by code_simp
  moreover have "sr_total (projr (search_templates templates_db ''modern'' None None None None)) = 2"
    by code_simp
  moreover have "\<not> isl (search_templates templates_db ''modern'' None None None None)"
    by code_simp
  ultimately show "\<exists>r. search_templates templates_db ''modern'' None None None None = Inr r \<and>
            map title (sr_results r) = [''ModernShop Pro'', ''Tech Startup Kit''] \<and>
            sr_total r = 2"
    by (cases "search_templates templates_db ''modern'' None None None None") auto
qed

text \<open>An upper-case query with a category, a lower price bound and a rating bound, on the
  seed catalog: only Tech Startup Kit passes.\<close>

theorem search_templates_exact_witness:
  "\<exists>r. search_templates templates_db ''MODERN'' (Some ''landing page'') (Some 100) None (Some 4) = Inr r \<and>
     map title (sr_results r) = [''Tech Startup Kit''] \<and> sr_total r = 1"
proof -
  have titles: "map title (sr_results (projr
      (search_templates templates_db ''MODERN'' (Some ''landing page'') (Some 100) None (Some 4))))
        = [''Tech Startup Kit'']"
    by code_simp
  from search_templates_exact [of "''MODERN''" "Some 100" None "Some 4" templates_db
      "Some ''landing page''"]
  obtain r where r: "search_templates templates_db ''MODERN'' (Some ''landing page'')
        (Some 100) None (Some 4) = Inr r"
    and t: "sr_total r = int (length (sr_results r))"
    by auto
  from r titles have "map title (sr_results r) = [''Tech Startup Kit'']"
    by simp
  moreover from this have "length (sr_results r) = 1"
    by (metis length_map length_Cons list.size(3) One_nat_def)
  ultimately show ?thesis using r t by simp
qed

subsection \<open>Query engine: By Category\<close>

lemma filter_key_distinct:
  "distinct (map f xs) \<Longrightarrow> length (filter (\<lambda>x. f x = k) xs) \<le> 1"
proof (induction xs)
  case Nil
  then show ?case by simp
next
  case (Cons a xs)
  show ?case
  proof (cases "f a = k")
    case True
    with Cons.prems have "\<forall>x\<in>set xs. f x \<noteq> k"
      by (auto simp: image_iff)
    then have "filter (\<lambda>x. f x = k) xs = []"
      by (simp add: filter_empty_conv)
    with True show ?thesis by simp
  next
    case False
    with Cons show ?thesis by simp
  qed
qed

lemma seed_one_per_category:
  "length (filter (\<lambda>t. lower (category t) = k) templates_db) \<le> 1"
proof -
  have "distinct (map (\<lambda>t. lower (category t)) templates_db)"
    by code_simp
  then show ?thesis by (rule filter_key_distinct)
qed

text \<open>On any catalog a negative limit cuts from the end, as a Python slice does: all
  matching templates but the last \<open>- limit\<close>.\<close>

lemma get_templates_by_category_negative_limit:
  assumes "limit < 0"
  shows "bc_templates (get_templates_by_category db cat limit) =
           take (length (filter (\<lambda>t. lower (category t) = lower cat) db) - nat (- limit))
             (filter (\<lambda>t. lower (category t) = lower cat) db)"
  using assms by (simp add: get_templates_by_category_def Let_def py_slice_negative)

text \<open>
  Claim C9. For every category string and every integer limit, By Category on the
  catalog of the program returns the templates whose category equals the given one up to
  case, in catalog order, cut to the first \<open>limit\<close> of them (none when \<open>limit\<close> is
  negative), and \<open>total\<close> is the number of matching templates before the cut. The same
  holds on any catalog when \<open>limit\<close> is not negative. (The seed catalog has at most one
  template per category, so a negative limit, which Python counts from the end of the
  list, leaves nothing there.)
\<close>

theorem get_templates_by_category_truncates:
  assumes "db = templates_db \<or> 0 \<le> limit"
  shows "get_templates_by_category db cat limit =
           \<lparr>bc_category = cat,
            bc_templates = take (nat limit) (filter (\<lambda>t. lower (category t) = lower cat) db),
            bc_total = int (length (filter (\<lambda>t. lower (category t) = lower cat) db))\<rparr>"
proof -
  have "0 \<le> limit \<or> length (filter (\<lambda>t. lower (category t) = lower cat) db) \<le> 1"
    using assms seed_one_per_category by auto
  then show ?thesis
    by (simp add: get_templates_by_category_def Let_def py_slice_take)
qed

text \<open>The seed catalog and the category \<open>BLOG\<close>: limit \<open>-1\<close> returns no template and
  total 1, limit 20 returns Blog Master.\<close>

theorem get_templates_by_category_truncates_witness:
  "bc_templates (get_templates_by_category templates_db ''BLOG'' (- 1)) = [] \<and>
   bc_total (get_templates_by_category templates_db ''BLOG'' (- 1)) = 1 \<and>
   map title (bc_templates (get_templates_by_category templates_db ''BLOG'' 20)) = [''Blog Master'']"
proof -
  have one: "map title (filter (\<lambda>t. lower (category t) = lower ''BLOG'') templates_db)
      = [''Blog Master'']"
    by code_simp
  then have len: "length (filter (\<lambda>t. lower (category t) = lower ''BLOG'') templates_db) = 1"
    by (metis length_map length_Cons list.size(3) One_nat_def)
  from get_templates_by_category_truncates [of templates_db "- 1" "''BLOG''"]
    get_templates_by_category_truncates [of templates_db 20 "''BLOG''"] one len
  show ?thesis by simp
qed

subsection \<open>Cart: Get and Add\<close>

lemma foldl_add_sum_list:
  "foldl (\<lambda>acc i. acc + g i) a xs = a + sum_list (map g xs)" for a :: rat
  by (induction xs arbitrary: a) (simp_all add: add.assoc)

text \<open>
  Claim C4. For every cart, Get returns the items of the cart as they stand in it (Add
  appends, so this is the order of insertion), \<open>total_items\<close> is the number of items and
  not the sum of the quantities, and \<open>total_price\<close> is the sum over the items of the
  template's price times the quantity. Adding template 1 twice to the empty cart, at
  any two clock readings, leaves one item with quantity 2; Get then reports
  \<open>total_items = 1\<close> and \<open>total_price = 178\<close>.
\<close>

theorem get_cart_totals:
  "get_cart cart =
     \<lparr>items = cart, total_items = int (length cart),
      total_price = (\<Sum>i\<leftarrow>cart. price (template i) * of_int (quantity i))\<rparr> \<and>
   (\<exists>it. run_ops templates_db [] [Add 1 now1, Add 1 now2] = [it] \<and>
      template_id it = 1 \<and> quantity it = 2 \<and>
      total_items (get_cart [it]) = 1 \<and> total_price (get_cart [it]) = 178)"
proof
  show "get_cart cart =
     \<lparr>items = cart, total_items = int (length cart),
      total_price = (\<Sum>i\<leftarrow>cart. price (template i) * of_int (quantity i))\<rparr>"
    by (simp add: get_cart_def foldl_add_sum_list)
next
  have t1: "find (\<lambda>t. tmpl_id t = 1) templates_db = Some (hd templates_db)"
    by (simp add: templates_db_def)
  have p1: "price (hd templates_db) = 89"
    by (simp add: templates_db_def)
  have "run_ops templates_db [] [Add 1 now1, Add 1 now2] =
      [\<lparr>item_id = 1, template_id = 1, template = hd templates_db, quantity = 2,
        added_at = now1\<rparr>]"
    by (simp add: run_ops_def add_to_cart_def t1 Let_def)
  then show "\<exists>it. run_ops templates_db [] [Add 1 now1, Add 1 now2] = [it] \<and>
      template_id it = 1 \<and> quantity it = 2 \<and>
      total_items (get_cart [it]) = 1 \<and> total_price (get_cart [it]) = 178"
    by (simp add: get_cart_def p1)
qed

subsection \<open>Cart: one item per template\<close>

lemma update_first_map_key:
  assumes "\<And>x. k (f x) = k x"
  shows "map k (update_first P f xs) = map k xs"
  by (induction xs) (simp_all add: assms)

lemma update_first_distinct_key:
  "distinct (map k xs) \<Longrightarrow>
     update_first (\<lambda>i. k i = v) f xs = map (\<lambda>i. if k i = v then f i else i) xs"
proof (induction xs)
  case Nil
  then show ?case by simp
next
  case (Cons x xs)
  show ?case
  proof (cases "k x = v")
    case True
    with Cons.prems have "\<forall>y\<in>set xs. k y \<noteq> v"
      by (auto simp: image_iff)
    then have "map (\<lambda>i. if k i = v then f i else i) xs = xs"
      by (simp add: map_idI)
    with True show ?thesis by simp
  next
    case False
    with Cons show ?thesis by simp
  qed
qed

lemma cart_inv_cong:
  "map template_id cart' = map template_id cart \<Longrightarrow> cart_inv db cart' = cart_inv db cart"
  by (simp only: cart_inv_def)

lemma cart_inv_add: 
  assumes inv: "cart_inv db cart"
  shows "cart_inv db (fst (add_to_cart db now cart tid))"
proof (cases "find (\<lambda>t. tmpl_id t = tid) db")
  case None
  with inv show ?thesis by (simp add: add_to_cart_def)
next
  case tmpl: (Some tmpl)
  show ?thesis
  proof (cases "find (\<lambda>i. template_id i = tid) cart")
    case None
    then have "tid \<notin> template_id ` set cart"
      by (auto simp: find_None_iff)
    with inv tmpl None show ?thesis
      by (auto simp: add_to_cart_def Let_def cart_inv_def)
  next
    case (Some existing_item)
    have "map template_id
        (update_first (\<lambda>i. template_id i = tid) (\<lambda>i. i\<lparr>quantity := quantity i + 1\<rparr>) cart)
          = map template_id cart"
      by (rule update_first_map_key) simp
    from cart_inv_cong [OF this] inv tmpl Some show ?thesis
      by (simp add: add_to_cart_def)
  qed
qed

lemma cart_inv_update:
  assumes inv: "cart_inv db cart"
  shows "cart_inv db (fst (update_cart_item cart iid qty))"
proof -
  have "map template_id
      (update_first (\<lambda>i. item_id i = iid) (\<lambda>i. i\<lparr>quantity := qty\<rparr>) cart)
        = map template_id cart"
    by (rule update_first_map_key) simp
  from cart_inv_cong [OF this] inv show ?thesis
    by (simp add: update_cart_item_def split: option.splits)
qed

lemma cart_inv_remove:
  assumes inv: "cart_inv db cart"
  shows "cart_inv db (fst (remove_from_cart cart iid))"
  using inv by (auto simp: cart_inv_def remove_from_cart_def Let_def distinct_map_filter)

lemma cart_inv_empty: "cart_inv db []"
  by (simp add: cart_inv_def)

lemma cart_inv_apply_op: "cart_inv db cart \<Longrightarrow> cart_inv db (apply_op db cart op)"
  by (cases op)
    (simp_all add: cart_inv_add cart_inv_update cart_inv_remove clear_cart_def cart_inv_empty)

lemma cart_inv_run_ops: "cart_inv db cart \<Longrightarrow> cart_inv db (run_ops db cart ops)"
  unfolding run_ops_def by (induction ops arbitrary: cart) (simp_all add: cart_inv_apply_op)

text \<open>
  Claim C5. For every catalog and every sequence of cart requests (add, update quantity,
  remove, clear) served one after the other from the empty cart, no two items of the
  resulting cart have the same \<open>template_id\<close>; and adding a \<open>template_id\<close> that the cart
  already holds leaves the cart with the same items, the quantity of the one for that
  template raised by 1.
\<close>

theorem cart_one_item_per_template:
  "distinct (map template_id (run_ops db [] ops)) \<and>
   (\<forall>tid now. tid \<in> template_id ` set (run_ops db [] ops) \<longrightarrow>
      fst (add_to_cart db now (run_ops db [] ops) tid) =
        map (\<lambda>i. if template_id i = tid then i\<lparr>quantity := quantity i + 1\<rparr> else i)
          (run_ops db [] ops))"
proof -
  define cart where "cart = run_ops db [] ops"
  have inv: "cart_inv db cart"
    unfolding cart_def by (rule cart_inv_run_ops) (rule cart_inv_empty)
  have "fst (add_to_cart db now cart tid) =
        map (\<lambda>i. if template_id i = tid then i\<lparr>quantity := quantity i + 1\<rparr> else i) cart"
    if "tid \<in> template_id ` set cart" for tid now
  proof -
    from that inv obtain tmpl where t: "find (\<lambda>t. tmpl_id t = tid) db = Some tmpl"
      by (auto simp: cart_inv_def)
    from that obtain it where i: "find (\<lambda>i. template_id i = tid) cart = Some it"
      by (cases "find (\<lambda>i. template_id i = tid) cart") (auto simp: find_None_iff)
    from inv have "distinct (map template_id cart)"
      by (simp add: cart_inv_def)
    then show ?thesis
      by (simp add: add_to_cart_def t i update_first_distinct_key)
  qed
  with inv show ?thesis
    unfolding cart_def [symmetric] by (simp add: cart_inv_def)
qed

text \<open>Templates 1 and 2 added, the second set to quantity 7, and template 2 added again:
  still two items, the second with quantity 8.\<close>

theorem cart_one_item_per_template_witness:
  "distinct (map template_id (run_ops templates_db [] [Add 1 ''a'', Add 2 ''b'', Update 2 7])) \<and>
   map (\<lambda>i. (template_id i, quantity i))
     (fst (add_to_cart templates_db ''c''
        (run_ops templates_db [] [Add 1 ''a'', Add 2 ''b'', Update 2 7]) 2)) = [(1, 1), (2, 8)]"
proof -
  let ?cart = "run_ops templates_db [] [Add 1 ''a'', Add 2 ''b'', Update 2 7]"
  have mem: "2 \<in> template_id ` set ?cart"
    by code_simp
  have val: "map (\<lambda>i. (template_id i, quantity i))
      (map (\<lambda>i. if template_id i = 2 then i\<lparr>quantity := quantity i + 1\<rparr> else i) ?cart)
       = [(1, 1), (2, 8)]"
    by code_simp
  from cart_one_item_per_template [of templates_db "[Add 1 ''a'', Add 2 ''b'', Update 2 7]"]
  have d: "distinct (map template_id ?cart)"
    and e: "\<And>tid now. tid \<in> template_id ` set ?cart \<Longrightarrow>
      fst (add_to_cart templates_db now ?cart tid) =
        map (\<lambda>i. if template_id i = tid then i\<lparr>quantity := quantity i + 1\<rparr> else i) ?cart"
    by blast+
  from e [OF mem, of "''c''"] val d show ?thesis by simp
qed

subsection \<open>Cart: item ids\<close>

text \<open>
  Claim C6. Some sequence of add and remove requests, served from the empty cart on the
  seed catalog, leaves a cart in which two items for different templates have the same
  id: add template 1, add template 2, remove id 1, add template 3. The third item is
  numbered by the length of the cart, 1, plus 1, the id of the item that is still there.
\<close>

theorem cart_item_id_reused:
  "\<exists>ops. list_all is_add_or_remove ops \<and>
     (\<exists>a b. a \<in> set (run_ops templates_db [] ops) \<and> b \<in> set (run_ops templates_db [] ops) \<and>
        template_id a \<noteq> template_id b \<and> item_id a = item_id b)"
proof -
  let ?ops = "[Add 1 ''t1'', Add 2 ''t2'', Remove 1, Add 3 ''t3'']"
  let ?cart = "run_ops templates_db [] ?ops"
  have ops: "list_all is_add_or_remove ?ops"
    by simp
  have len: "length ?cart = 2"
    by code_simp
  have keys: "item_id (?cart ! 0) = 2 \<and> template_id (?cart ! 0) = 2 \<and>
      item_id (?cart ! 1) = 2 \<and> template_id (?cart ! 1) = 3"
    by code_simp
  from len have mem: "?cart ! 0 \<in> set ?cart" "?cart ! 1 \<in> set ?cart"
    by simp_all
  from keys have "template_id (?cart ! 0) \<noteq> template_id (?cart ! 1) \<and>
      item_id (?cart ! 0) = item_id (?cart ! 1)"
    by simp
  with mem ops show ?thesis by blast
qed

subsection \<open>Cart: quantities\<close>

lemma find_append_last:
  "\<forall>x\<in>set xs. \<not> P x \<Longrightarrow> P y \<Longrightarrow> find P (xs @ [y]) = Some y"
  by (induction xs) simp_all

lemma update_first_append_last:
  "\<forall>x\<in>set xs. \<not> P x \<Longrightarrow> P y \<Longrightarrow> update_first P f (xs @ [y]) = xs @ [f y]"
  by (induction xs) simp_all

lemma add_existing_last:
  assumes "find (\<lambda>t. tmpl_id t = tid) db = Some tmpl"
    and "tid \<notin> template_id ` set cart" and "template_id it = tid"
  shows "fst (add_to_cart db now (cart @ [it]) tid) = cart @ [it\<lparr>quantity := quantity it + 1\<rparr>]"
proof -
  from assms(2) have no: "\<forall>x\<in>set cart. \<not> template_id x = tid"
    by auto
  from find_append_last [of cart "\<lambda>i. template_id i = tid" it, OF no assms(3)]
    update_first_append_last [of cart "\<lambda>i. template_id i = tid" it, OF no assms(3)] assms(1)
  show ?thesis by (simp add: add_to_cart_def)
qed

lemma run_adds_existing_last:
  assumes "find (\<lambda>t. tmpl_id t = tid) db = Some tmpl"
    and "tid \<notin> template_id ` set cart" and "template_id it = tid"
  shows "run_ops db (cart @ [it]) (map (Add tid) nows) =
           cart @ [it\<lparr>quantity := quantity it + int (length nows)\<rparr>]"
  using assms(3)
proof (induction nows arbitrary: it)
  case Nil
  then show ?case by (simp add: run_ops_def)
next
  case (Cons now nows)
  have "run_ops db (cart @ [it]) (map (Add tid) (now # nows)) =
        run_ops db (cart @ [it\<lparr>quantity := quantity it + 1\<rparr>]) (map (Add tid) nows)"
    using add_existing_last [OF assms(1,2) Cons.prems] by (simp add: run_ops_def)
  also have "\<dots> = cart @ [it\<lparr>quantity := quantity it + 1 + int (length nows)\<rparr>]"
    using Cons.IH [of "it\<lparr>quantity := quantity it + 1\<rparr>"] Cons.prems by simp
  finally show ?case by (simp add: add.assoc add.commute)
qed

lemma update_first_set:
  "x \<in> set (update_first P f xs) \<Longrightarrow> x \<in> set xs \<or> (\<exists>y\<in>set xs. x = f y)"
  by (induction xs) (auto split: if_splits)

text \<open>
  Claim C7. When template \<open>tid\<close> is in the catalog and not yet in the cart, adding it
  \<open>n \<ge> 1\<close> times in a row (once per clock reading in \<open>nows\<close>) appends one item whose
  quantity is \<open>n\<close>, whatever \<open>n\<close> is, so above 10 when \<open>n > 10\<close>. Update quantity
  rejects every quantity outside 1 to 10 and leaves the cart as it was; after any call of
  it, each item of the cart either was there before or has a quantity from 1 to 10.
\<close>

theorem add_unbounded_update_bounded:
  assumes "find (\<lambda>t. tmpl_id t = tid) db = Some tmpl"
    and "tid \<notin> template_id ` set cart" and "nows \<noteq> []"
  shows "run_ops db cart (map (Add tid) nows) =
           cart @ [\<lparr>item_id = int (length cart) + 1, template_id = tid, template = tmpl,
                    quantity = int (length nows), added_at = hd nows\<rparr>] \<and>
         (\<not> (1 \<le> qty \<and> qty \<le> 10) \<longrightarrow>
            update_cart_item cart' iid qty = (cart', Inl ValidationError)) \<and>
         (\<forall>i\<in>set (fst (update_cart_item cart' iid qty)).
            i \<in> set cart' \<or> (1 \<le> quantity i \<and> quantity i \<le> 10))"
proof (intro conjI)
  from assms(3) obtain now rest where nows: "nows = now # rest"
    by (cases nows) auto
  let ?it = "\<lparr>item_id = int (length cart) + 1, template_id = tid, template = tmpl,
             quantity = 1, added_at = now\<rparr>"
  from assms(2) have "find (\<lambda>i. template_id i = tid) cart = None"
    by (auto simp: find_None_iff)
  with assms(1) have first: "fst (add_to_cart db now cart tid) = cart @ [?it]"
    by (simp add: add_to_cart_def Let_def)
  have "run_ops db cart (map (Add tid) nows) = run_ops db (cart @ [?it]) (map (Add tid) rest)"
    using first by (simp add: nows run_ops_def)
  also have "\<dots> = cart @ [?it\<lparr>quantity := quantity ?it + int (length rest)\<rparr>]"
    by (rule run_adds_existing_last [OF assms(1,2)]) simp
  finally show "run_ops db cart (map (Add tid) nows) =
           cart @ [\<lparr>item_id = int (length cart) + 1, template_id = tid, template = tmpl,
                    quantity = int (length nows), added_at = hd nows\<rparr>]"
    by (simp add: nows)
next
  show "\<not> (1 \<le> qty \<and> qty \<le> 10) \<longrightarrow>
          update_cart_item cart' iid qty = (cart', Inl ValidationError)"
    by (simp add: update_cart_item_def)
next
  show "\<forall>i\<in>set (fst (update_cart_item cart' iid qty)).
            i \<in> set cart' \<or> (1 \<le> quantity i \<and> quantity i \<le> 10)"
  proof
    fix i assume i: "i \<in> set (fst (update_cart_item cart' iid qty))"
    show "i \<in> set cart' \<or> (1 \<le> quantity i \<and> quantity i \<le> 10)"
    proof (cases "1 \<le> qty \<and> qty \<le> 10")
      case False
      with i show ?thesis by (simp add: update_cart_item_def)
    next
      case True
      show ?thesis
      proof (cases "find (\<lambda>i. item_id i = iid) cart'")
        case None
        with i True show ?thesis by (simp add: update_cart_item_def)
      next
        case (Some it)
        with i True have "i \<in> set (update_first (\<lambda>i. item_id i = iid)
            (\<lambda>i. i\<lparr>quantity := qty\<rparr>) cart')"
          by (simp add: update_cart_item_def)
        from update_first_set [OF this] True show ?thesis by auto
      qed
    qed
  qed
qed

text \<open>Eleven adds of template 1 on the seed catalog give quantity 11; setting quantity 11
  by update is rejected.\<close>

theorem add_unbounded_update_bounded_witness:
  "map (\<lambda>i. (template_id i, quantity i))
     (run_ops templates_db []
        (map (Add 1) [''a'', ''b'', ''c'', ''d'', ''e'', ''f'', ''g'', ''h'', ''i'', ''j'', ''k'']))
     = [(1, 11)] \<and>
   update_cart_item (run_ops templates_db [] [Add 1 ''a'']) 1 11 =
     (run_ops templates_db [] [Add 1 ''a''], Inl ValidationError)"
proof -
  have t: "find (\<lambda>t. tmpl_id t = 1) templates_db = Some (hd templates_db)"
    by (simp add: templates_db_def)
  from add_unbounded_update_bounded [of 1 templates_db "hd templates_db" "[]"
      "[''a'', ''b'', ''c'', ''d'', ''e'', ''f'', ''g'', ''h'', ''i'', ''j'', ''k'']"
      11 "run_ops templates_db [] [Add 1 ''a'']" 1] t
  show ?thesis by simp
qed

subsection \<open>Cart: Remove with a shared id\<close>

text \<open>
  Claim C10. When two different items of the cart have the id \<open>iid\<close>, one Remove call
  with \<open>iid\<close> succeeds and leaves the cart without any item of that id: both are gone, and
  the cart is shorter by two at least.
\<close>

theorem remove_deletes_every_item_with_id:
  assumes "a \<in> set cart" "b \<in> set cart" "a \<noteq> b" "item_id a = iid" "item_id b = iid"
  shows "remove_from_cart cart iid =
           (filter (\<lambda>i. item_id i \<noteq> iid) cart, Inr ''Item removed from cart'') \<and>
         (\<forall>i\<in>set (fst (remove_from_cart cart iid)). item_id i \<noteq> iid) \<and>
         a \<notin> set (fst (remove_from_cart cart iid)) \<and>
         b \<notin> set (fst (remove_from_cart cart iid)) \<and>
         length (fst (remove_from_cart cart iid)) + 2 \<le> length cart"
proof -
  let ?gone = "filter (\<lambda>i. \<not> item_id i \<noteq> iid) cart"
  let ?kept = "filter (\<lambda>i. item_id i \<noteq> iid) cart"
  from assms have "{a, b} \<subseteq> set ?gone"
    by simp
  then have "card {a, b} \<le> card (set ?gone)"
    by (intro card_mono) simp_all
  also have "\<dots> \<le> length ?gone"
    by (rule card_length)
  finally have two: "2 \<le> length ?gone"
    using assms(3) by simp
  have "length ?kept + length ?gone = length cart"
    by (rule sum_length_filter_compl)
  with two have len: "length ?kept + 2 \<le> length cart"
    by simp
  then have "length ?kept \<noteq> length cart"
    by simp
  then have res: "remove_from_cart cart iid = (?kept, Inr ''Item removed from cart'')"
    by (simp add: remove_from_cart_def Let_def)
  with len assms show ?thesis by simp
qed

text \<open>The cart of the seed catalog after add 1, add 2, remove 1, add 3 holds two items
  with id 2; removing id 2 empties it and succeeds.\<close>

theorem remove_deletes_every_item_with_id_witness:
  "map (\<lambda>i. (item_id i, template_id i))
     (run_ops templates_db [] [Add 1 ''t1'', Add 2 ''t2'', Remove 1, Add 3 ''t3''])
       = [(2, 2), (2, 3)] \<and>
   remove_from_cart (run_ops templates_db [] [Add 1 ''t1'', Add 2 ''t2'', Remove 1, Add 3 ''t3'']) 2
     = ([], Inr ''Item removed from cart'')"
proof -
  let ?cart = "run_ops templates_db [] [Add 1 ''t1'', Add 2 ''t2'', Remove 1, Add 3 ''t3'']"
  have keys: "map (\<lambda>i. (item_id i, template_id i)) ?cart = [(2, 2), (2, 3)]"
    by code_simp
  have len: "length ?cart = 2"
    by code_simp
  have ids: "item_id (?cart ! 0) = 2" "item_id (?cart ! 1) = 2" "?cart ! 0 \<noteq> ?cart ! 1"
    by code_simp+
  have none: "filter (\<lambda>i. item_id i \<noteq> 2) ?cart = []"
    by code_simp
  from len have mem: "?cart ! 0 \<in> set ?cart" "?cart ! 1 \<in> set ?cart"
    by simp_all
  from remove_deletes_every_item_with_id [OF mem ids(3) ids(1) ids(2)] none
  have "remove_from_cart ?cart 2 = ([], Inr ''Item removed from cart'')"
    by simp
  with keys show ?thesis by simp
qed

end
